theory Spec2Isabelle
  imports Main "HOL-Library.AList" "HOL-Library.Monad_Syntax"
begin

section \<open>Python strings\<close>

text \<open>
  A Python \<open>str\<close> is a sequence of Unicode code points. It is modelled as a list of
  natural numbers, one per code point, so that the regular expressions of the program
  (\<open>.\<close> is any code point but the line feed) and its string methods count what Python
  counts. \<open>str ''abc''\<close> is the \<open>str\<close> literal \<open>'abc'\<close>.
\<close>

type_synonym pystr = "nat list"

abbreviation str :: "string \<Rightarrow> pystr" where
  "str s \<equiv> map of_char s"

abbreviation COLON :: nat where
  "COLON \<equiv> 58"

abbreviation NL :: nat where
  "NL \<equiv> 10"

text \<open>\<open>s.startswith(p)\<close>\<close>

definition startswith :: "pystr \<Rightarrow> pystr \<Rightarrow> bool" where
  "startswith s p = (take (length p) s = p)"

text \<open>
  \<open>s.replace(old, new)\<close>: every occurrence of \<open>old\<close>, found from left to right without
  overlap, is replaced. \<open>replace_from k old new s\<close> scans \<open>s\<close>; \<open>k\<close> counts the code
  points of an occurrence just found that are still to be skipped.
\<close>

fun replace_from :: "nat \<Rightarrow> pystr \<Rightarrow> pystr \<Rightarrow> pystr \<Rightarrow> pystr" where
  "replace_from k old new [] = []"
| "replace_from (Suc k) old new (c # cs) = replace_from k old new cs"
| "replace_from 0 old new (c # cs) =
     (if startswith (c # cs) old then new @ replace_from (length old - 1) old new cs
      else c # replace_from 0 old new cs)"

definition str_replace :: "pystr \<Rightarrow> pystr \<Rightarrow> pystr \<Rightarrow> pystr" where
  "str_replace s old new =
     (if old = [] then new @ concat (map (\<lambda>c. c # new) s)
      else replace_from 0 old new s)"

text \<open>\<open>s.split(sep)\<close> for a separator of one code point, as in \<open>split(':')\<close>.\<close>

fun str_split :: "nat \<Rightarrow> pystr \<Rightarrow> pystr list" where
  "str_split sep [] = [[]]"
| "str_split sep (c # cs) =
     (if c = sep then [] # str_split sep cs
      else (case str_split sep cs of
              p # ps \<Rightarrow> (c # p) # ps
            | [] \<Rightarrow> [[c]]))"

text \<open>\<open>s.endswith(p)\<close>\<close>

definition endswith :: "pystr \<Rightarrow> pystr \<Rightarrow> bool" where
  "endswith s p = (length p \<le> length s \<and> drop (length s - length p) s = p)"

text \<open>\<open>old in s\<close>: does \<open>old\<close> occur in \<open>s\<close>?\<close>

fun str_contains :: "pystr \<Rightarrow> pystr \<Rightarrow> bool" where
  "str_contains [] old = (old = [])"
| "str_contains (c # cs) old = (startswith (c # cs) old \<or> str_contains cs old)"

section \<open>The record model\<close>

record Snippet =
  collection :: pystr
  snippet :: pystr
  uid :: pystr
  name :: pystr
  keyword :: pystr

datatype exn =
    ValueError_unpack
  | ValueError_path "pystr \<times> pystr"
  | IndexError
  | KeyError pystr
  | TypeError
  | JSONDecodeError
  | RecursionError
  | UnicodeEncodeError
  | FileExistsError pystr
  | FileNotFoundError "pystr list"

section \<open>The json module\<close>

text \<open>
  The values that \<open>json.loads\<close> returns and \<open>json.dumps\<close> takes. A number is kept as
  the text of its literal: the program never computes with one.
\<close>

datatype json =
    JNull
  | JBool bool
  | JNum pystr
  | JStr pystr
  | JArr "json list"
  | JObj "(pystr \<times> json) list"

text \<open>
  \<open>json.dumps(obj, ensure_ascii=False, indent=2)\<close>. A string is written between double
  quotes with \<open>"\<close>, \<open>\\<close> and the control characters escaped, and all other code
  points as they are; every item of a non-empty list or dict stands on a line of its
  own, indented by two spaces for each level.
\<close>

definition hexdigit :: "nat \<Rightarrow> nat" where
  "hexdigit n = (if n < 10 then 48 + n else 87 + n)"

definition escape_char :: "nat \<Rightarrow> pystr" where
  "escape_char c =
     (if c = 34 then [92, 34]
      else if c = 92 then [92, 92]
      else if c = 8 then [92, 98]
      else if c = 12 then [92, 102]
      else if c = 10 then [92, 110]
      else if c = 13 then [92, 114]
      else if c = 9 then [92, 116]
      else if c < 32 then [92, 117, 48, 48, hexdigit (c div 16), hexdigit (c mod 16)]
      else [c])"

definition encode_basestring :: "pystr \<Rightarrow> pystr" where
  "encode_basestring s = [34] @ concat (map escape_char s) @ [34]"

definition indent :: "nat \<Rightarrow> pystr" where
  "indent level = NL # replicate (2 * level) 32"

fun join :: "pystr \<Rightarrow> pystr list \<Rightarrow> pystr" where
  "join sep [] = []"
| "join sep [x] = x"
| "join sep (x # y # ys) = x @ sep @ join sep (y # ys)"

fun json_dumps_at :: "nat \<Rightarrow> json \<Rightarrow> pystr" where
  "json_dumps_at level JNull = str ''null''"
| "json_dumps_at level (JBool b) = (if b then str ''true'' else str ''false'')"
| "json_dumps_at level (JNum n) = n"
| "json_dumps_at level (JStr s) = encode_basestring s"
| "json_dumps_at level (JArr xs) =
     (if xs = [] then str ''[]''
      else str ''['' @ indent (Suc level)
           @ join (str '','' @ indent (Suc level)) (map (json_dumps_at (Suc level)) xs)
           @ indent level @ str '']'')"
| "json_dumps_at level (JObj kvs) =
     (if kvs = [] then str ''{}''
      else str ''{'' @ indent (Suc level)
           @ join (str '','' @ indent (Suc level))
               (map (\<lambda>(k, v). encode_basestring k @ str '': '' @ json_dumps_at (Suc level) v) kvs)
           @ indent level @ str ''}'')"

definition json_dumps :: "json \<Rightarrow> pystr" where
  "json_dumps v = json_dumps_at 0 v"


text \<open>
  \<open>json.loads(s)\<close>. \<open>scanstring\<close> reads a string from behind its opening quote, in strict
  mode: a control character ends it with an error, \<open>\uXXXX\<close> takes four hexadecimal
  digits, and a high surrogate followed by an escaped low surrogate gives one code point.
\<close>

definition hexval :: "nat \<Rightarrow> nat option" where
  "hexval c =
     (if 48 \<le> c \<and> c \<le> 57 then Some (c - 48)
      else if 97 \<le> c \<and> c \<le> 102 then Some (c - 87)
      else if 65 \<le> c \<and> c \<le> 70 then Some (c - 55)
      else None)"

definition decode_uXXXX :: "nat \<Rightarrow> nat \<Rightarrow> nat \<Rightarrow> nat \<Rightarrow> nat option" where
  "decode_uXXXX h1 h2 h3 h4 =
     (case (hexval h1, hexval h2, hexval h3, hexval h4) of
        (Some a, Some b, Some c, Some d) \<Rightarrow> Some (((a * 16 + b) * 16 + c) * 16 + d)
      | _ \<Rightarrow> None)"

definition BACKSLASH :: "nat \<Rightarrow> nat option" where
  "BACKSLASH e =
     (if e = 34 then Some 34
      else if e = 92 then Some 92
      else if e = 47 then Some 47
      else if e = 98 then Some 8
      else if e = 102 then Some 12
      else if e = 110 then Some 10
      else if e = 114 then Some 13
      else if e = 116 then Some 9
      else None)"

definition chunk :: "nat \<Rightarrow> exn + (pystr \<times> pystr) \<Rightarrow> exn + (pystr \<times> pystr)" where
  "chunk c r = (case r of Inl e \<Rightarrow> Inl e | Inr (s, rest) \<Rightarrow> Inr (c # s, rest))"

fun scanstring :: "pystr \<Rightarrow> exn + (pystr \<times> pystr)" where
  "scanstring [] = Inl JSONDecodeError"
| "scanstring (c # cs) =
     (if c = 34 then Inr ([], cs)
      else if c = 92 then
        (case cs of
           [] \<Rightarrow> Inl JSONDecodeError
         | e # cs1 \<Rightarrow>
             if e = 117 then
               (case cs1 of
                  h1 # h2 # h3 # h4 # cs2 \<Rightarrow>
                    (case decode_uXXXX h1 h2 h3 h4 of
                       None \<Rightarrow> Inl JSONDecodeError
                     | Some uni \<Rightarrow>
                         if 55296 \<le> uni \<and> uni \<le> 56319 then
                           (case cs2 of
                              b # u # g1 # g2 # g3 # g4 # cs3 \<Rightarrow>
                                if b = 92 \<and> u = 117 then
                                  (case decode_uXXXX g1 g2 g3 g4 of
                                     None \<Rightarrow> Inl JSONDecodeError
                                   | Some uni2 \<Rightarrow>
                                       if 56320 \<le> uni2 \<and> uni2 \<le> 57343
                                       then chunk (65536 + (uni - 55296) * 1024 + (uni2 - 56320))
                                              (scanstring cs3)
                                       else chunk uni (scanstring cs2))
                                else chunk uni (scanstring cs2)
                            | _ \<Rightarrow> chunk uni (scanstring cs2))
                         else chunk uni (scanstring cs2))
                | _ \<Rightarrow> Inl JSONDecodeError)
             else (case BACKSLASH e of
                     None \<Rightarrow> Inl JSONDecodeError
                   | Some ch \<Rightarrow> chunk ch (scanstring cs1)))
      else if c < 32 then Inl JSONDecodeError
      else chunk c (scanstring cs))"

definition is_ws :: "nat \<Rightarrow> bool" where
  "is_ws c = (c = 32 \<or> c = 9 \<or> c = 10 \<or> c = 13)"

definition skip_ws :: "pystr \<Rightarrow> pystr" where
  "skip_ws t = dropWhile is_ws t"

definition is_digit :: "nat \<Rightarrow> bool" where
  "is_digit c = (48 \<le> c \<and> c \<le> 57)"

definition match_number :: "pystr \<Rightarrow> (pystr \<times> pystr) option" where
  "match_number t =
     (let (sign, t1) = (case t of c # r \<Rightarrow> if c = 45 then ([c], r) else ([], t) | [] \<Rightarrow> ([], t))
      in case (case t1 of
                 [] \<Rightarrow> None
               | d # r \<Rightarrow> if d = 48 then Some ([d], r)
                          else if is_digit d then Some (d # takeWhile is_digit r, dropWhile is_digit r)
                          else None) of
           None \<Rightarrow> None
         | Some (integer, t2) \<Rightarrow>
             let (frac, t3) =
                   (case t2 of
                      p # r \<Rightarrow> if p = 46 \<and> takeWhile is_digit r \<noteq> []
                                 then (p # takeWhile is_digit r, dropWhile is_digit r) else ([], t2)
                    | [] \<Rightarrow> ([], t2));
                 (ex, t4) =
                   (case t3 of
                      e # r \<Rightarrow>
                        if e = 69 \<or> e = 101 then
                          (let (sg, r') = (case r of g # r'' \<Rightarrow> if g = 45 \<or> g = 43 then ([g], r'')
                                                                else ([], r)
                                           | [] \<Rightarrow> ([], r))
                           in if takeWhile is_digit r' \<noteq> []
                              then (e # sg @ takeWhile is_digit r', dropWhile is_digit r')
                              else ([], t3))
                        else ([], t3)
                    | [] \<Rightarrow> ([], t3))
             in Some (sign @ integer @ frac @ ex, t4))"

text \<open>
  \<open>dict(pairs)\<close>: a key that comes again keeps its place and takes the later value.
\<close>

definition dict :: "(pystr \<times> json) list \<Rightarrow> (pystr \<times> json) list" where
  "dict pairs = foldl (\<lambda>d (k, v). AList.update k v d) [] pairs"

text \<open>
  The scanner. Its first argument bounds the number of nested calls that are still
  allowed; \<open>json_loads\<close> allows one for each code point of the text, and each call of
  \<open>scan_once\<close>, \<open>JSONObject\<close> or \<open>JSONArray\<close> within another follows at least one code
  point that has been read.
\<close>

fun scan_once :: "nat \<Rightarrow> pystr \<Rightarrow> exn + (json \<times> pystr)"
  and JSONObject :: "nat \<Rightarrow> (pystr \<times> json) list \<Rightarrow> pystr \<Rightarrow> exn + (json \<times> pystr)"
  and JSONArray :: "nat \<Rightarrow> json list \<Rightarrow> pystr \<Rightarrow> exn + (json \<times> pystr)"
where
  "scan_once 0 t = Inl RecursionError"
| "scan_once (Suc n) t =
     (case t of
        [] \<Rightarrow> Inl JSONDecodeError
      | c # cs \<Rightarrow>
          if c = 34 then
            (case scanstring cs of Inl e \<Rightarrow> Inl e | Inr (s, rest) \<Rightarrow> Inr (JStr s, rest))
          else if c = 123 then
            (case skip_ws cs of
               [] \<Rightarrow> Inl JSONDecodeError
             | d # rest \<Rightarrow>
                 if d = 125 then Inr (JObj [], rest)
                 else if d = 34 then JSONObject n [] rest
                 else Inl JSONDecodeError)
          else if c = 91 then
            (case skip_ws cs of
               [] \<Rightarrow> Inl JSONDecodeError
             | d # rest \<Rightarrow>
                 if d = 93 then Inr (JArr [], rest)
                 else JSONArray n [] (d # rest))
          else if startswith t (str ''null'') then Inr (JNull, drop 4 t)
          else if startswith t (str ''true'') then Inr (JBool True, drop 4 t)
          else if startswith t (str ''false'') then Inr (JBool False, drop 5 t)
          else
            (case match_number t of
               Some (literal, rest) \<Rightarrow> Inr (JNum literal, rest)
             | None \<Rightarrow>
                 if startswith t (str ''NaN'') then Inr (JNum (str ''NaN''), drop 3 t)
                 else if startswith t (str ''Infinity'') then Inr (JNum (str ''Infinity''), drop 8 t)
                 else if startswith t (str ''-Infinity'')
                 then Inr (JNum (str ''-Infinity''), drop 9 t)
                 else Inl JSONDecodeError))"
| "JSONObject 0 pairs t = Inl RecursionError"
| "JSONObject (Suc n) pairs t =
     (case scanstring t of
        Inl e \<Rightarrow> Inl e
      | Inr (key, t1) \<Rightarrow>
          (case skip_ws t1 of
             [] \<Rightarrow> Inl JSONDecodeError
           | c # t2 \<Rightarrow>
               if c \<noteq> 58 then Inl JSONDecodeError
               else
                 (case scan_once n (skip_ws t2) of
                    Inl e \<Rightarrow> Inl e
                  | Inr (v, t3) \<Rightarrow>
                      (case skip_ws t3 of
                         [] \<Rightarrow> Inl JSONDecodeError
                       | d # t4 \<Rightarrow>
                           if d = 125 then Inr (JObj (dict (pairs @ [(key, v)])), t4)
                           else if d = 44 then
                             (case skip_ws t4 of
                                [] \<Rightarrow> Inl JSONDecodeError
                              | q # t5 \<Rightarrow>
                                  if q = 34 then JSONObject n (pairs @ [(key, v)]) t5
                                  else Inl JSONDecodeError)
                           else Inl JSONDecodeError))))"
| "JSONArray 0 vals t = Inl RecursionError"
| "JSONArray (Suc n) vals t =
     (case scan_once n t of
        Inl e \<Rightarrow> Inl e
      | Inr (v, t1) \<Rightarrow>
          (case skip_ws t1 of
             [] \<Rightarrow> Inl JSONDecodeError
           | d # t2 \<Rightarrow>
               if d = 93 then Inr (JArr (vals @ [v]), t2)
               else if d = 44 then JSONArray n (vals @ [v]) (skip_ws t2)
               else Inl JSONDecodeError))"

text \<open>
  \<open>json.loads\<close> skips the white space around the value and raises if anything else
  follows it.
\<close>

definition json_loads :: "pystr \<Rightarrow> exn + json" where
  "json_loads t =
     (case scan_once (Suc (length t)) (skip_ws t) of
        Inl e \<Rightarrow> Inl e
      | Inr (v, rest) \<Rightarrow> if skip_ws rest = [] then Inr v else Inl JSONDecodeError)"


section \<open>Serialising and parsing a record\<close>

definition to_json :: "Snippet \<Rightarrow> pystr" where
  "to_json s =
     json_dumps
       (JObj [(str ''alfredsnippet'',
               JObj [(str ''snippet'', JStr (snippet s)),
                     (str ''uid'', JStr (uid s)),
                     (str ''name'', JStr (name s)),
                     (str ''keyword'', JStr (keyword s))])])"



text \<open>
  \<open>obj[key]\<close> for a string key: \<open>KeyError\<close> when a dict has no such key, \<open>TypeError\<close> when
  the value is no dict.
\<close>

definition getitem :: "json \<Rightarrow> pystr \<Rightarrow> exn + json" where
  "getitem v k =
     (case v of
        JObj d \<Rightarrow> (case map_of d k of None \<Rightarrow> Inl (KeyError k) | Some x \<Rightarrow> Inr x)
      | _ \<Rightarrow> Inl TypeError)"

text \<open>
  \<open>Snippet.from_json\<close> takes the four fields in the order of the source. The dataclass
  declares them as \<open>str\<close>; a record with a field of another JSON type is outside this
  model, which stops with \<open>TypeError\<close> where Python would go on with the ill-typed value.
\<close>

definition from_json :: "pystr \<Rightarrow> pystr \<Rightarrow> exn + Snippet" where
  "from_json json_text coll =
     (case json_loads json_text of
        Inl e \<Rightarrow> Inl e
      | Inr doc \<Rightarrow>
     (case getitem doc (str ''alfredsnippet'') of
        Inl e \<Rightarrow> Inl e
      | Inr item \<Rightarrow>
     (case getitem item (str ''snippet'') of
        Inl e \<Rightarrow> Inl e
      | Inr v1 \<Rightarrow>
     (case getitem item (str ''uid'') of
        Inl e \<Rightarrow> Inl e
      | Inr v2 \<Rightarrow>
     (case getitem item (str ''name'') of
        Inl e \<Rightarrow> Inl e
      | Inr v3 \<Rightarrow>
     (case getitem item (str ''keyword'') of
        Inl e \<Rightarrow> Inl e
      | Inr v4 \<Rightarrow>
     (case (v1, v2, v3, v4) of
        (JStr a, JStr b, JStr c, JStr d) \<Rightarrow>
          Inr \<lparr>collection = coll, snippet = a, uid = b, name = c, keyword = d\<rparr>
      | _ \<Rightarrow> Inl TypeError)))))))"

section \<open>Configuration\<close>

definition FINAL_COLLECTION_NAME :: pystr where
  "FINAL_COLLECTION_NAME = str ''Gimbo Big Emoji Collection.alfredsnippets''"

definition ICON_PATH :: pystr where
  "ICON_PATH = str ''gimbo_icon.png''"

definition COMMON_PREFIX :: pystr where
  "COMMON_PREFIX = str '':''"

definition COMMON_SUFFIX :: pystr where
  "COMMON_SUFFIX = str '':''"

text \<open>The dict literal \<open>SNIPPET_ACTIONS\<close>, in the order of the source.\<close>

definition SNIPPET_ACTIONS_items :: "((pystr \<times> pystr) \<times> pystr) list" where
  "SNIPPET_ACTIONS_items =
   [((str ''[Emoji] Activity.alfredsnippets'', str ''DB104057-67D9-464E-87A7-E5C6A5C9E83F''), str ''remove''),
    ((str ''[Emoji] Activity.alfredsnippets'', str ''2CB14D66-8A2C-490E-B5BC-497C719BDE0D''), str ''remove''),
    ((str ''[Emoji] Activity.alfredsnippets'', str ''73D962B3-0883-46DB-BF17-7886E0E0D6BE''), str ''remove''),
    ((str ''[Emoji] Aliases.alfredsnippets'', str ''1EFA2E1A-FC94-4E9E-8CA6-CCD9881F8EDB''), str ''remove''),
    ((str ''[Emoji] Aliases.alfredsnippets'', str ''382C5551-7790-438B-B0DD-7D5085AE7562''), str ''remove''),
    ((str ''[Emoji] Aliases.alfredsnippets'', str ''F5246F75-8B74-4A1C-A546-EA13B904CB80''), str ''remove''),
    ((str ''[Emoji] Food and Drink.alfredsnippets'', str ''21C550E1-8B7C-4C41-91FB-6A8FB11805DB''), str ''remove''),
    ((str ''[Emoji] Food and Drink.alfredsnippets'', str ''A7D1C140-433A-4CB5-9D08-0E039673A514''), str ''remove''),
    ((str ''[Emoji] Objects.alfredsnippets'', str ''E5539CBF-8C94-4E63-A76F-28F5BB9A778D''), str ''remove''),
    ((str ''[Emoji] Symbols.alfredsnippets'', str ''E7A892D4-EC10-4CEB-8FA4-DF406E69C24A''), str ''remove''),
    ((str ''[Emoji] Symbols.alfredsnippets'', str ''746F2037-7C6A-4C6D-95B7-3E202A2EFD2B''), str ''remove''),
    ((str ''[Emoji] Travel and Places.alfredsnippets'', str ''E7AFDB70-D184-4550-9DAF-AFC7F17AA1E2''), str ''remove''),
    ((str ''[Emoji] Aliases.alfredsnippets'', str ''7BBB3467-E963-4563-A24F-5ADB2A7134E3''),
       str ''rename:space-invader:Space Invader''),
    ((str ''[Emoji] Aliases.alfredsnippets'', str ''4E959109-F9A1-471A-BE3E-E9F2FB91B923''),
       str ''rename:ng:No Good (block)''),
    ((str ''[Emoji] Weather.alfredsnippets'', str ''17D5AB5B-7EE4-44AF-BDC6-52A1B0330DF7''),
       str ''rename:shoting-star-block:Shooting Star (block)'')]"

text \<open>\<open>SNIPPET_ACTIONS.get(key)\<close>: no key of the literal is repeated.\<close>

definition SNIPPET_ACTIONS :: "pystr \<times> pystr \<Rightarrow> pystr option" where
  "SNIPPET_ACTIONS = map_of SNIPPET_ACTIONS_items"

section \<open>The global indexes\<close>

text \<open>
  \<open>SNIPPETS_BY_KEYWORD\<close> and \<open>SNIPPETS_BY_NAME\<close> are \<open>defaultdict(list)\<close>: association
  lists in insertion order. The lists hold references to the record objects; the only
  later mutation of such an object is the rewrite of its name at the end of
  \<open>tweak_snippet\<close>, so the model stores the record as it stands after that rewrite.
\<close>

type_synonym index = "(pystr \<times> Snippet list) list"

record globals =
  SNIPPETS_BY_KEYWORD :: index
  SNIPPETS_BY_NAME :: index

definition index_append :: "pystr \<Rightarrow> Snippet \<Rightarrow> index \<Rightarrow> index" where
  "index_append k v d =
     (case map_of d k of
        None \<Rightarrow> d @ [(k, [v])]
      | Some vs \<Rightarrow> AList.update k (vs @ [v]) d)"

section \<open>The transformer\<close>

text \<open>
  \<open>re.sub(r'^:(.+):$', r'\1', keyword)\<close>. Without flags \<open>^\<close> matches at the start of the
  string only, \<open>.\<close> matches any code point but the line feed, and \<open>$\<close> matches at the end
  of the string and also just before a line feed that ends the string. So there is at most
  one match; it starts at the first code point and ends at the end of \<open>body\<close>, the
  string without its final line feed if it has one.
\<close>

definition re_sub_keyword :: "pystr \<Rightarrow> pystr" where
  "re_sub_keyword s =
     (let body = (if s \<noteq> [] \<and> last s = NL then butlast s else s);
          rest = (if s \<noteq> [] \<and> last s = NL then [NL] else [])
      in if 3 \<le> length body \<and> hd body = COLON \<and> last body = COLON
            \<and> NL \<notin> set (butlast (tl body))
         then butlast (tl body) @ rest
         else s)"

text \<open>
  \<open>snippet.collection.replace('[Emoji] ', '').replace('.alfredsnippets', '')\<close>
\<close>

definition collection_label :: "pystr \<Rightarrow> pystr" where
  "collection_label c =
     str_replace (str_replace c (str ''[Emoji] '') []) (str ''.alfredsnippets'') []"

text \<open>
  The first statements of \<open>tweak_snippet\<close>, up to the end of the \<open>if\<close>: normalise the
  keyword, look the record up in \<open>SNIPPET_ACTIONS\<close>, and remove or rename it. The result
  \<open>None\<close> is the early \<open>return None\<close>. The unpacking
  \<open>snippet.keyword, snippet.name = action[7:].split(':')\<close> raises \<open>ValueError\<close> unless
  the split has exactly two parts. An action that is neither \<open>remove\<close> nor a rename
  changes nothing.
\<close>

definition apply_action :: "Snippet \<Rightarrow> exn + Snippet option" where
  "apply_action s0 =
     (let s1 = s0\<lparr>keyword := re_sub_keyword (keyword s0)\<rparr> in
      case SNIPPET_ACTIONS (collection s1, uid s1) of
        None \<Rightarrow> Inr (Some s1)
      | Some action \<Rightarrow>
          if action = str ''remove'' then Inr None
          else if startswith action (str ''rename:'') then
            (case str_split COLON (drop 7 action) of
               [k, n] \<Rightarrow> Inr (Some (s1\<lparr>keyword := k, name := n\<rparr>))
             | _ \<Rightarrow> Inl ValueError_unpack)
          else Inr (Some s1))"

text \<open>
  The last statements of \<open>tweak_snippet\<close>: register the record under its keyword and
  its name, then rewrite the name.
\<close>

definition register_and_prefix :: "Snippet \<Rightarrow> globals \<Rightarrow> Snippet \<times> globals" where
  "register_and_prefix s g =
     (let s' = s\<lparr>name := str ''Emoji | '' @ collection_label (collection s) @ str '' | ''
                          @ name s @ str '' | '' @ keyword s\<rparr>
      in (s', g\<lparr>SNIPPETS_BY_KEYWORD := index_append (keyword s) s' (SNIPPETS_BY_KEYWORD g),
               SNIPPETS_BY_NAME := index_append (name s) s' (SNIPPETS_BY_NAME g)\<rparr>))"

definition tweak_snippet :: "Snippet \<Rightarrow> globals \<Rightarrow> exn + (Snippet option \<times> globals)" where
  "tweak_snippet s0 g =
     (case apply_action s0 of
        Inl e \<Rightarrow> Inl e
      | Inr None \<Rightarrow> Inr (None, g)
      | Inr (Some s2) \<Rightarrow> (case register_and_prefix s2 g of (s', g') \<Rightarrow> Inr (Some s', g')))"

text \<open>
  The statements that a call of \<open>tweak_snippet\<close> executes, in the order of the source:
  the assignment of the normalised keyword, the lookup \<open>SNIPPET_ACTIONS.get\<close> with its
  key, the assignment of a rename, the two registrations and the rewrite of the name.
\<close>

datatype statement =
    Normalise_keyword
  | Lookup "pystr \<times> pystr"
  | Rename
  | Register_keyword
  | Register_name
  | Rewrite_name

text \<open>
  \<open>tweak_snippet_steps\<close> lists the statements that the call executes, each with the record
  as it stands after the statement. The branches are those of \<open>tweak_snippet\<close>.
\<close>

definition tweak_snippet_steps :: "Snippet \<Rightarrow> (statement \<times> Snippet) list" where
  "tweak_snippet_steps s0 =
     (let s1 = s0\<lparr>keyword := re_sub_keyword (keyword s0)\<rparr>;
          register_and_rewrite =
            (\<lambda>s. [(Register_keyword, s), (Register_name, s),
                  (Rewrite_name, s\<lparr>name := str ''Emoji | '' @ collection_label (collection s)
                                           @ str '' | '' @ name s @ str '' | '' @ keyword s\<rparr>)])
      in (Normalise_keyword, s1) # (Lookup (collection s1, uid s1), s1) #
         (case SNIPPET_ACTIONS (collection s1, uid s1) of
            None \<Rightarrow> register_and_rewrite s1
          | Some action \<Rightarrow>
              if action = str ''remove'' then []
              else if startswith action (str ''rename:'') then
                (case str_split COLON (drop 7 action) of
                   [k, n] \<Rightarrow> (Rename, s1\<lparr>keyword := k, name := n\<rparr>)
                               # register_and_rewrite (s1\<lparr>keyword := k, name := n\<rparr>)
                 | _ \<Rightarrow> [])
              else register_and_rewrite s1))"

definition is_lookup :: "statement \<times> Snippet \<Rightarrow> bool" where
  "is_lookup x = (case fst x of Lookup _ \<Rightarrow> True | _ \<Rightarrow> False)"

definition is_later_statement :: "statement \<times> Snippet \<Rightarrow> bool" where
  "is_later_statement x = (fst x = Rename \<or> fst x = Register_keyword \<or> fst x = Register_name
                             \<or> fst x = Rewrite_name)"


section \<open>The file system\<close>

text \<open>
  The part of the file system that the program touches: the directories under
  \<open>WORKSPACE\<close>, each with its files (name and content) in the order in which
  \<open>iterdir\<close> and \<open>glob\<close> list them, the icon file at \<open>ICON_PATH\<close> if there is one, and the
  archive that the run writes under the name \<open>FINAL_COLLECTION_NAME\<close> in the current
  directory, as the list of its entries (\<open>None\<close> as long as it has not been written).
\<close>

type_synonym entry = "pystr \<times> pystr"

type_synonym directory = "entry list"

record fs =
  workspace :: "(pystr \<times> directory) list"
  icon :: "pystr option"
  final_zip :: "directory option"

definition files_in :: "fs \<Rightarrow> pystr \<Rightarrow> directory" where
  "files_in st d = (case map_of (workspace st) d of None \<Rightarrow> [] | Some fl \<Rightarrow> fl)"

definition put_dir :: "pystr \<Rightarrow> directory \<Rightarrow> fs \<Rightarrow> fs" where
  "put_dir d fl st = st\<lparr>workspace := AList.update d fl (workspace st)\<rparr>"

text \<open>\<open>glob('*.json')\<close> lists the files whose name ends in \<open>.json\<close>.\<close>

definition is_json :: "entry \<Rightarrow> bool" where
  "is_json f = endswith (fst f) (str ''.json'')"

section \<open>The manifest patch\<close>

text \<open>
  \<open>\s\<close> in a \<open>str\<close> pattern: the code points for which \<open>str.isspace\<close> holds.
\<close>

definition is_space :: "nat \<Rightarrow> bool" where
  "is_space c = (c \<in> set [9, 10, 11, 12, 13, 28, 29, 30, 31, 32, 133, 160, 5760,
                          8192, 8193, 8194, 8195, 8196, 8197, 8198, 8199, 8200, 8201, 8202,
                          8232, 8233, 8239, 8287, 12288])"

text \<open>
  \<open>\s+\<close> followed by a literal that starts with \<open><\<close>: the longest run of white space, at
  least one code point of it. No shorter run can be followed by \<open><\<close>, so backtracking
  finds nothing else.
\<close>

definition spaces1 :: "pystr \<Rightarrow> (pystr \<times> pystr) option" where
  "spaces1 t = (if takeWhile is_space t = [] then None
                else Some (takeWhile is_space t, dropWhile is_space t))"

definition lit :: "pystr \<Rightarrow> pystr \<Rightarrow> pystr option" where
  "lit p t = (if startswith t p then Some (drop (length p) t) else None)"

text \<open>
  A match of the pattern of \<open>tweak_info_plist\<close> at the start of \<open>t\<close>, which the caller
  knows to be the start of a line:
  \<^verbatim>\<open>(^\s+<key>snippetkeywordprefix</key>\n\s+<string>)\<close>
  \<^verbatim>\<open>(</string>\n\s+<key>snippetkeywordsuffix</key>\n\s+<string>)\<close>
  \<^verbatim>\<open>(</string>)\<close>.
  The result is the three groups.
\<close>

definition plist_match :: "pystr \<Rightarrow> (pystr \<times> pystr \<times> pystr) option" where
  "plist_match t = do {
     (w1, t1) \<leftarrow> spaces1 t;
     t2 \<leftarrow> lit (str ''<key>snippetkeywordprefix</key>'' @ [NL]) t1;
     (w2, t3) \<leftarrow> spaces1 t2;
     t4 \<leftarrow> lit (str ''<string>'') t3;
     t5 \<leftarrow> lit (str ''</string>'' @ [NL]) t4;
     (w3, t6) \<leftarrow> spaces1 t5;
     t7 \<leftarrow> lit (str ''<key>snippetkeywordsuffix</key>'' @ [NL]) t6;
     (w4, t8) \<leftarrow> spaces1 t7;
     t9 \<leftarrow> lit (str ''<string>'') t8;
     t10 \<leftarrow> lit (str ''</string>'') t9;
     Some (w1 @ str ''<key>snippetkeywordprefix</key>'' @ [NL] @ w2 @ str ''<string>'',
           str ''</string>'' @ [NL] @ w3 @ str ''<key>snippetkeywordsuffix</key>'' @ [NL]
             @ w4 @ str ''<string>'',
           str ''</string>'')
   }"

text \<open>
  \<open>re.sub(pattern, r'\1' + prefix + r'\2' + suffix + r'\3', text, flags=re.MULTILINE)\<close>,
  for a prefix and a suffix that the template takes literally, as \<open>:\<close> is. The scan goes
  from left to right; \<open>bol\<close> says that the position is the start of the text or follows a
  line feed, where \<open>^\<close> matches; \<open>k\<close> counts the code points of a match just replaced that
  are still to be skipped.
\<close>

fun plist_sub :: "nat \<Rightarrow> bool \<Rightarrow> pystr \<Rightarrow> pystr \<Rightarrow> pystr \<Rightarrow> pystr" where
  "plist_sub k bol prefix suffix [] = []"
| "plist_sub (Suc k) bol prefix suffix (c # cs) = plist_sub k (c = NL) prefix suffix cs"
| "plist_sub 0 bol prefix suffix (c # cs) =
     (case (if bol then plist_match (c # cs) else None) of
        Some (g1, g2, g3) \<Rightarrow>
          g1 @ prefix @ g2 @ suffix @ g3
             @ plist_sub (length g1 + length g2 + length g3 - 1) (c = NL) prefix suffix cs
      | None \<Rightarrow> c # plist_sub 0 (c = NL) prefix suffix cs)"

text \<open>\<open>re.search\<close> with the same pattern: is there a match anywhere?\<close>

fun plist_search :: "bool \<Rightarrow> pystr \<Rightarrow> bool" where
  "plist_search bol [] = False"
| "plist_search bol (c # cs) =
     ((bol \<and> plist_match (c # cs) \<noteq> None) \<or> plist_search (c = NL) cs)"

text \<open>
  \<open>tweak_info_plist\<close> reads the file \<open>name\<close> of the directory \<open>d\<close>, substitutes, and writes
  the result back. Reading a file that is not there raises \<open>FileNotFoundError\<close>.
\<close>

definition tweak_info_plist :: "pystr \<Rightarrow> pystr \<Rightarrow> pystr \<Rightarrow> pystr \<Rightarrow> fs \<Rightarrow> (exn \<times> fs) + fs" where
  "tweak_info_plist d fname prefix suffix st =
     (case map_of (files_in st d) fname of
        None \<Rightarrow> Inl (FileNotFoundError [d, fname], st)
      | Some body \<Rightarrow>
          Inr (put_dir d (AList.update fname (plist_sub 0 True prefix suffix body) (files_in st d)) st))"

section \<open>The collection processor\<close>

text \<open>
  \<open>process_snippet\<close> works on the file \<open>fname\<close> of the working directory \<open>d\<close>, whose name is
  the collection of the record. A removed record's file is unlinked; a kept record is
  written back. \<open>write_text\<close> empties the file before it encodes the text, and, with
  UTF-8 as the encoding, raises \<open>UnicodeEncodeError\<close> when the text has a surrogate.
\<close>

definition is_surrogate :: "nat \<Rightarrow> bool" where
  "is_surrogate c = (55296 \<le> c \<and> c \<le> 57343)"

definition process_snippet ::
  "pystr \<times> pystr \<Rightarrow> fs \<times> globals \<Rightarrow> (exn \<times> fs \<times> globals) + (fs \<times> globals)" where
  "process_snippet snippet_path state =
     (case (snippet_path, state) of ((d, fname), (st, g)) \<Rightarrow>
        case map_of (files_in st d) fname of
          None \<Rightarrow> Inl (FileNotFoundError [d, fname], st, g)
        | Some body \<Rightarrow>
            (case from_json body d of
               Inl e \<Rightarrow> Inl (e, st, g)
             | Inr snip \<Rightarrow>
                 (case tweak_snippet snip g of
                    Inl e \<Rightarrow> Inl (e, st, g)
                  | Inr (None, g') \<Rightarrow>
                      Inr (put_dir d (AList.delete fname (files_in st d)) st, g')
                  | Inr (Some tweaked_snippet, g') \<Rightarrow>
                      if list_ex is_surrogate (to_json tweaked_snippet)
                      then Inl (UnicodeEncodeError,
                                put_dir d (AList.update fname [] (files_in st d)) st, g')
                      else Inr (put_dir d (AList.update fname (to_json tweaked_snippet)
                                             (files_in st d)) st, g'))))"


section \<open>The aggregator\<close>

text \<open>
  \<open>snippet.rename(destination)\<close>: the file leaves the directory \<open>c\<close> and becomes an entry of
  the merged directory.
\<close>

definition rename_into_final :: "pystr \<Rightarrow> entry \<Rightarrow> fs \<Rightarrow> fs" where
  "rename_into_final c f st =
     (let st' = put_dir c (remove1 f (files_in st c)) st
      in put_dir FINAL_COLLECTION_NAME (files_in st' FINAL_COLLECTION_NAME @ [f]) st')"

text \<open>
  The inner loop of \<open>collect_and_compress_to_new_single_snippetfile\<close> over the files that
  \<open>collection.glob('*.json')\<close> lists. An exception comes with the state in which it is
  raised.
\<close>

fun move_snippets :: "pystr \<Rightarrow> entry list \<Rightarrow> fs \<Rightarrow> (exn \<times> fs) + fs" where
  "move_snippets c [] st = Inr st"
| "move_snippets c (f # fl) st =
     (if fst f \<in> set (map fst (files_in st FINAL_COLLECTION_NAME))
      then Inl (ValueError_path (c, fst f), st)
      else move_snippets c fl (rename_into_final c f st))"

text \<open>The outer loop, over \<open>collections\<close>.\<close>

fun move_collections :: "pystr list \<Rightarrow> fs \<Rightarrow> (exn \<times> fs) + fs" where
  "move_collections [] st = Inr st"
| "move_collections (c # cs) st =
     (case move_snippets c (filter is_json (files_in st c)) st of
        Inl e \<Rightarrow> Inl e
      | Inr st' \<Rightarrow> move_collections cs st')"

text \<open>
  \<open>shutil.copyfile(ICON_PATH, final / 'icon.png')\<close> raises \<open>FileNotFoundError\<close> when there
  is no icon.
\<close>

definition copy_icon :: "fs \<Rightarrow> (exn \<times> fs) + fs" where
  "copy_icon st =
     (case icon st of
        None \<Rightarrow> Inl (FileNotFoundError [ICON_PATH], st)
      | Some img \<Rightarrow>
          Inr (put_dir FINAL_COLLECTION_NAME
                 (AList.update (str ''icon.png'') img (files_in st FINAL_COLLECTION_NAME)) st))"

text \<open>
  \<open>(collections[0] / 'info.plist').rename(final / 'info.plist')\<close>: \<open>collections[0]\<close> raises
  \<open>IndexError\<close> when there is no collection, and the \<open>rename\<close> raises \<open>FileNotFoundError\<close>
  when the first collection has no manifest.
\<close>

definition move_manifest :: "pystr list \<Rightarrow> fs \<Rightarrow> (exn \<times> fs) + fs" where
  "move_manifest collections st =
     (case collections of
        [] \<Rightarrow> Inl (IndexError, st)
      | c0 # _ \<Rightarrow>
          (case map_of (files_in st c0) (str ''info.plist'') of
             None \<Rightarrow> Inl (FileNotFoundError [c0, str ''info.plist''], st)
           | Some manifest \<Rightarrow>
               let st' = put_dir c0 (AList.delete (str ''info.plist'') (files_in st c0)) st
               in Inr (put_dir FINAL_COLLECTION_NAME
                         (AList.update (str ''info.plist'') manifest
                            (files_in st' FINAL_COLLECTION_NAME)) st')))"

text \<open>
  The archive is written last; its entries are the files of the merged directory, under
  their own names.
\<close>

definition write_zip :: "fs \<Rightarrow> fs" where
  "write_zip st = st\<lparr>final_zip := Some (files_in st FINAL_COLLECTION_NAME)\<rparr>"

text \<open>The statements of \<open>collect_and_compress_to_new_single_snippetfile\<close> after the loops.\<close>

definition pack_final :: "pystr list \<Rightarrow> fs \<Rightarrow> (exn \<times> fs) + fs" where
  "pack_final collections st1 =
     (case copy_icon st1 of
        Inl e \<Rightarrow> Inl e
      | Inr st2 \<Rightarrow>
          (case move_manifest collections st2 of
             Inl e \<Rightarrow> Inl e
           | Inr st3 \<Rightarrow>
               (case tweak_info_plist FINAL_COLLECTION_NAME (str ''info.plist'')
                       COMMON_PREFIX COMMON_SUFFIX st3 of
                  Inl e \<Rightarrow> Inl e
                | Inr st4 \<Rightarrow> Inr (write_zip st4))))"

text \<open>
  \<open>collections\<close> is listed before the merged directory is made, and \<open>final.mkdir()\<close> raises
  \<open>FileExistsError\<close> if the directory is there already.
\<close>

definition collect_and_compress_to_new_single_snippetfile :: "fs \<Rightarrow> (exn \<times> fs) + fs" where
  "collect_and_compress_to_new_single_snippetfile st0 =
     (let collections = map fst (workspace st0);
          final = FINAL_COLLECTION_NAME
      in if final \<in> set collections then Inl (FileExistsError final, st0)
         else
           case move_collections collections (st0\<lparr>workspace := workspace st0 @ [(final, [])]\<rparr>) of
             Inl e \<Rightarrow> Inl e
           | Inr st1 \<Rightarrow> pack_final collections st1)"

text \<open>
  The names of the record files that the two loops visit, in the order of the visit:
  for each of the directories \<open>cs\<close>, the names that \<open>glob('*.json')\<close> lists.
\<close>

definition record_file_names :: "fs \<Rightarrow> pystr list \<Rightarrow> pystr list" where
  "record_file_names st cs = concat (map (\<lambda>c. map fst (filter is_json (files_in st c))) cs)"

text \<open>The record files themselves, in the same order.\<close>

definition record_entries :: "fs \<Rightarrow> entry list" where
  "record_entries st = concat (map (\<lambda>c. filter is_json (files_in st c)) (map fst (workspace st)))"


definition record_files :: "fs \<Rightarrow> pystr list" where
  "record_files st = record_file_names st (map fst (workspace st))"

section \<open>The specification's reading of the keyword rule\<close>

text \<open>
  The specification's words for the keyword rule: a single leading and a single trailing
  delimiter are stripped when both are present; anything else is left as it is.
\<close>

definition spec_strip_keyword :: "pystr \<Rightarrow> pystr" where
  "spec_strip_keyword k =
     (if 2 \<le> length k \<and> hd k = COLON \<and> last k = COLON then butlast (tl k) else k)"

section \<open>Example inputs\<close>

definition no_globals :: globals where
  "no_globals = \<lparr>SNIPPETS_BY_KEYWORD = [], SNIPPETS_BY_NAME = []\<rparr>"

definition space_invader :: Snippet where
  "space_invader =
     \<lparr>collection = str ''[Emoji] Aliases.alfredsnippets'', snippet = str ''x'',
      uid = str ''7BBB3467-E963-4563-A24F-5ADB2A7134E3'', name = str ''Video Game'',
      keyword = str '':video-game:''\<rparr>"

text \<open>Records of a collection \<open>X.alfredsnippets\<close> that has no entry in the rule table.\<close>

definition X_collection :: pystr where
  "X_collection = str ''X.alfredsnippets''"

definition X_uid :: pystr where
  "X_uid = str ''ABC''"

definition plain :: "string \<Rightarrow> string \<Rightarrow> Snippet" where
  "plain n k =
     \<lparr>collection = X_collection, snippet = str ''x'', uid = X_uid,
      name = str n, keyword = str k\<rparr>"

text \<open>A manifest as the collections carry it, and file systems for the aggregator.\<close>

definition manifest :: pystr where
  "manifest = str ''<dict>'' @ [NL, 9] @ str ''<key>snippetkeywordprefix</key>'' @ [NL, 9]
     @ str ''<string></string>'' @ [NL, 9] @ str ''<key>snippetkeywordsuffix</key>'' @ [NL, 9]
     @ str ''<string></string>'' @ [NL] @ str ''</dict>'' @ [NL]"

definition colliding :: fs where
  "colliding =
     \<lparr>workspace =
        [(str ''A.alfredsnippets'', [(str ''a.json'', str ''{}''), (str ''info.plist'', manifest)]),
         (str ''B.alfredsnippets'', [(str ''a.json'', str ''{}''), (str ''info.plist'', manifest)])],
      icon = Some (str ''PNG''), final_zip = None\<rparr>"

definition odd_manifest :: fs where
  "odd_manifest =
     \<lparr>workspace =
        [(str ''A.alfredsnippets'',
           [(str ''a.json'', str ''{}''), (str ''info.plist'', str ''<dict></dict>'')])],
      icon = Some (str ''PNG''), final_zip = None\<rparr>"

text \<open>A record file of the collection \<open>[Emoji] Activity.alfredsnippets\<close> that the table removes.\<close>

definition lotus_json :: pystr where
  "lotus_json = str ''{\"alfredsnippet\": {\"snippet\": \"x\", \"uid\": \"DB104057-67D9-464E-87A7-E5C6A5C9E83F\", \"name\": \"Lotus\", \"keyword\": \":lotus:\"}}''"

definition lotus :: Snippet where
  "lotus = \<lparr>collection = str ''[Emoji] Activity.alfredsnippets'', snippet = str ''x'',
            uid = str ''DB104057-67D9-464E-87A7-E5C6A5C9E83F'', name = str ''Lotus'',
            keyword = str '':lotus:''\<rparr>"

definition activity :: fs where
  "activity =
     \<lparr>workspace =
        [(str ''[Emoji] Activity.alfredsnippets'',
           [(str ''lotus.json'', lotus_json), (str ''info.plist'', manifest)])],
      icon = Some (str ''PNG''), final_zip = None\<rparr>"


section \<open>Facts about the string operations\<close>

lemma replace_from_absent:
  "old \<noteq> [] \<Longrightarrow> \<not> str_contains s old \<Longrightarrow> replace_from 0 old new s = s"
  by (induction s) auto

lemma str_replace_absent:
  "old \<noteq> [] \<Longrightarrow> \<not> str_contains s old \<Longrightarrow> str_replace s old new = s"
  by (simp add: str_replace_def replace_from_absent)

lemma first_separator_unique:
  "c \<notin> set a \<Longrightarrow> c \<notin> set b \<Longrightarrow> a @ c # r = b @ c # r' \<Longrightarrow> a = b \<and> r = r'"
proof (induction a arbitrary: b)
  case Nil
  then show ?case by (cases b) auto
next
  case (Cons x a)
  then show ?case by (cases b) auto
qed

lemma plain_no_action:
  "SNIPPET_ACTIONS (X_collection, X_uid) = None"
  by (simp add: SNIPPET_ACTIONS_def SNIPPET_ACTIONS_items_def X_collection_def X_uid_def)

lemma space_invader_action:
  "SNIPPET_ACTIONS (collection space_invader, uid space_invader)
     = Some (str ''rename:space-invader:Space Invader'')"
  by (simp add: SNIPPET_ACTIONS_def SNIPPET_ACTIONS_items_def space_invader_def)

lemma space_invader_split:
  "str_split COLON (drop 7 (str ''rename:space-invader:Space Invader''))
     = [str ''space-invader'', str ''Space Invader'']"
  by simp

lemma aliases_label:
  "collection_label (str ''[Emoji] Aliases.alfredsnippets'') = str ''Aliases''"
  by (simp add: collection_label_def str_replace_def startswith_def)

lemma X_label:
  "collection_label X_collection = str ''X''"
  by (simp add: collection_label_def str_replace_def startswith_def X_collection_def)

lemma re_sub_keyword_single_line:
  assumes "NL \<notin> set k"
  shows "re_sub_keyword k = (if k = str ''::'' then str ''::'' else spec_strip_keyword k)"
proof (cases "length k < 3")
  case True
  then consider "k = []" | a where "k = [a]" | a b where "k = [a, b]"
    by (cases k rule: rev_cases; cases "butlast k" rule: rev_cases;
        cases "butlast (butlast k)" rule: rev_cases) auto
  then show ?thesis
    by cases (auto simp: re_sub_keyword_def spec_strip_keyword_def)
next
  case False
  then have k: "k \<noteq> []" "3 \<le> length k" "2 \<le> length k" "k \<noteq> str ''::''"
    by auto
  have "last k \<noteq> NL"
    using assms k(1) last_in_set by metis
  moreover have "NL \<notin> set (butlast (tl k))"
    using assms k(1) by (meson in_set_butlastD list.set_sel(2))
  ultimately show ?thesis
    using k by (simp add: re_sub_keyword_def spec_strip_keyword_def)
qed

lemma apply_action_collection:
  "apply_action r = Inr (Some s) \<Longrightarrow> collection s = collection r"
  by (auto simp: apply_action_def Let_def split: option.splits if_splits list.splits)

lemma tweak_snippet_kept:
  assumes "apply_action r = Inr (Some s)"
    and "tweak_snippet r g = Inr (Some r', g')"
  shows "keyword r' = keyword s"
    and "name r' = str ''Emoji | '' @ collection_label (collection r) @ str '' | ''
                     @ name s @ str '' | '' @ keyword s"
  using assms apply_action_collection [OF assms(1)]
  by (auto simp: tweak_snippet_def register_and_prefix_def Let_def)

lemma plain_sel:
  "collection (plain n k) = X_collection" "uid (plain n k) = X_uid"
  "name (plain n k) = str n" "keyword (plain n k) = str k"
  by (simp_all add: plain_def)

lemma apply_action_plain:
  "apply_action (plain n k) = Inr (Some ((plain n k)\<lparr>keyword := re_sub_keyword (str k)\<rparr>))"
  by (simp add: apply_action_def plain_sel plain_no_action Let_def)

lemma tweak_snippet_plain:
  "tweak_snippet (plain n k) no_globals =
     (let k' = re_sub_keyword (str k);
          r' = \<lparr>collection = X_collection, snippet = str ''x'', uid = X_uid,
                name = str ''Emoji | X | '' @ str n @ str '' | '' @ k', keyword = k'\<rparr>
      in Inr (Some r', \<lparr>SNIPPETS_BY_KEYWORD = [(k', [r'])], SNIPPETS_BY_NAME = [(str n, [r'])]\<rparr>))"
  by (simp add: tweak_snippet_def apply_action_def plain_def plain_no_action Let_def
        register_and_prefix_def X_label index_append_def no_globals_def)

section \<open>Facts about the file system and the aggregator\<close>

lemma files_in_put_dir [simp]:
  "files_in (put_dir d fl st) d' = (if d' = d then fl else files_in st d')"
  by (simp add: files_in_def put_dir_def update_conv')

lemma put_dir_other [simp]:
  "final_zip (put_dir d fl st) = final_zip st" "icon (put_dir d fl st) = icon st"
  by (simp_all add: put_dir_def)

lemma rename_into_final_simps:
  "final_zip (rename_into_final c f st) = final_zip st"
  "icon (rename_into_final c f st) = icon st"
  "c \<noteq> FINAL_COLLECTION_NAME \<Longrightarrow> files_in (rename_into_final c f st) FINAL_COLLECTION_NAME = files_in st FINAL_COLLECTION_NAME @ [f]"
  "d \<noteq> c \<Longrightarrow> d \<noteq> FINAL_COLLECTION_NAME \<Longrightarrow> files_in (rename_into_final c f st) d = files_in st d"
  by (simp_all add: rename_into_final_def Let_def)

lemma move_snippets_Inr_all:
  "c \<noteq> FINAL_COLLECTION_NAME \<Longrightarrow> move_snippets c fl st = Inr st' \<Longrightarrow>
     files_in st' FINAL_COLLECTION_NAME = files_in st FINAL_COLLECTION_NAME @ fl
     \<and> distinct (map fst fl)
     \<and> set (map fst fl) \<inter> set (map fst (files_in st FINAL_COLLECTION_NAME)) = {}
     \<and> (\<forall>d. d \<noteq> c \<and> d \<noteq> FINAL_COLLECTION_NAME \<longrightarrow> files_in st' d = files_in st d)
     \<and> final_zip st' = final_zip st \<and> icon st' = icon st"
proof (induction fl arbitrary: st)
  case Nil
  then show ?case by simp
next
  case (Cons f fl)
  from Cons.prems have m: "fst f \<notin> set (map fst (files_in st FINAL_COLLECTION_NAME))"
    and r: "move_snippets c fl (rename_into_final c f st) = Inr st'"
    by (simp_all split: if_splits)
  from Cons.IH [OF Cons.prems(1) r] m Cons.prems(1) show ?case
    by (auto simp: rename_into_final_simps)
qed

lemma move_snippets_Inl:
  assumes "move_snippets c fl st = Inl (e, st')"
  shows "\<exists>n \<in> set (map fst fl). e = ValueError_path (c, n)
            \<and> n \<in> set (map fst (files_in st' FINAL_COLLECTION_NAME))"
    and "final_zip st' = final_zip st"
  using assms
  by (induction fl arbitrary: st) (auto simp: rename_into_final_simps split: if_splits)

lemma record_file_names_cong:
  "(\<And>d. d \<in> set cs \<Longrightarrow> files_in st' d = files_in st d) \<Longrightarrow>
     record_file_names st' cs = record_file_names st cs"
  by (induction cs) (simp_all add: record_file_names_def)

lemma move_collections_Inr:
  "distinct cs \<Longrightarrow> FINAL_COLLECTION_NAME \<notin> set cs \<Longrightarrow> move_collections cs st = Inr st' \<Longrightarrow>
     map fst (files_in st' FINAL_COLLECTION_NAME) = map fst (files_in st FINAL_COLLECTION_NAME) @ record_file_names st cs
     \<and> distinct (record_file_names st cs)
     \<and> set (record_file_names st cs) \<inter> set (map fst (files_in st FINAL_COLLECTION_NAME)) = {}
     \<and> (\<forall>d. d \<notin> set cs \<and> d \<noteq> FINAL_COLLECTION_NAME \<longrightarrow> files_in st' d = files_in st d)
     \<and> final_zip st' = final_zip st \<and> icon st' = icon st"
proof (induction cs arbitrary: st)
  case Nil
  then show ?case by (simp add: record_file_names_def)
next
  case (Cons c cs)
  from Cons.prems obtain st1
    where s1: "move_snippets c (filter is_json (files_in st c)) st = Inr st1"
      and s2: "move_collections cs st1 = Inr st'"
    by (auto split: sum.splits)
  from Cons.prems have c: "c \<noteq> FINAL_COLLECTION_NAME" "c \<notin> set cs" "distinct cs" "FINAL_COLLECTION_NAME \<notin> set cs"
    by auto
  note a = move_snippets_Inr_all [OF c(1) s1]
  note b = Cons.IH [OF c(3,4) s2]
  have same: "record_file_names st1 cs = record_file_names st cs"
    using a c by (intro record_file_names_cong) auto
  have hd: "record_file_names st (c # cs)
              = map fst (filter is_json (files_in st c)) @ record_file_names st cs"
    by (simp add: record_file_names_def)
  from a b show ?case
    unfolding hd same by auto
qed

lemma move_collections_Inl:
  "distinct cs \<Longrightarrow> FINAL_COLLECTION_NAME \<notin> set cs \<Longrightarrow> move_collections cs st = Inl (e, st') \<Longrightarrow>
     \<exists>c n. c \<in> set cs \<and> n \<in> set (map fst (filter is_json (files_in st c)))
         \<and> e = ValueError_path (c, n) \<and> n \<in> set (map fst (files_in st' FINAL_COLLECTION_NAME))
         \<and> final_zip st' = final_zip st"
proof (induction cs arbitrary: st)
  case Nil
  then show ?case by simp
next
  case (Cons c cs)
  from Cons.prems have c: "c \<noteq> FINAL_COLLECTION_NAME" "c \<notin> set cs" "distinct cs" "FINAL_COLLECTION_NAME \<notin> set cs"
    by auto
  show ?case
  proof (cases "move_snippets c (filter is_json (files_in st c)) st")
    case (Inl x)
    with Cons.prems(3) have "move_snippets c (filter is_json (files_in st c)) st = Inl (e, st')"
      by simp
    from move_snippets_Inl [OF this] show ?thesis
      by fastforce
  next
    case (Inr st1)
    with Cons.prems(3) have s2: "move_collections cs st1 = Inl (e, st')"
      by simp
    note a = move_snippets_Inr_all [OF c(1) Inr]
    from Cons.IH [OF c(3,4) s2] obtain d n where d: "d \<in> set cs"
      "n \<in> set (map fst (filter is_json (files_in st1 d)))"
      "e = ValueError_path (d, n)" "n \<in> set (map fst (files_in st' FINAL_COLLECTION_NAME))"
      and z: "final_zip st' = final_zip st1"
      by blast
    from d(1) c have "files_in st1 d = files_in st d"
      using a by auto
    with d z a show ?thesis
      by (intro exI [of _ d] exI [of _ n]) simp
  qed
qed

lemma files_in_mkdir:
  "d \<in> set (map fst (workspace st)) \<Longrightarrow>
     files_in (st\<lparr>workspace := workspace st @ [(n, [])]\<rparr>) d = files_in st d"
  by (auto simp: files_in_def map_add_def map_of_eq_None_iff [symmetric] image_iff
        split: option.splits)

lemma files_in_mkdir_new:
  "n \<notin> set (map fst (workspace st)) \<Longrightarrow>
     files_in (st\<lparr>workspace := workspace st @ [(n, [])]\<rparr>) n = []"
  by (auto simp: files_in_def map_add_def map_of_eq_None_iff [symmetric] split: option.splits)

lemma plist_sub_no_match:
  "\<not> plist_search bol t \<Longrightarrow> plist_sub 0 bol prefix suffix t = t"
  by (induction t arbitrary: bol) (auto split: option.splits)

lemma put_dir_same:
  "map_of (files_in st d) fname = Some body \<Longrightarrow> put_dir d (files_in st d) st = st"
  by (auto simp: put_dir_def files_in_def update_triv split: option.splits)

section \<open>Facts about the json module\<close>

lemma hexval_hexdigit: "d < 16 \<Longrightarrow> hexval (hexdigit d) = Some d"
  by (auto simp: hexval_def hexdigit_def)

lemma decode_control:
  "c < 32 \<Longrightarrow> decode_uXXXX 48 48 (hexdigit (c div 16)) (hexdigit (c mod 16)) = Some c"
proof -
  assume c: "c < 32"
  then have "c div 16 < 16" "c mod 16 < 16" by auto
  then have "hexval (hexdigit (c div 16)) = Some (c div 16)"
    "hexval (hexdigit (c mod 16)) = Some (c mod 16)"
    by (simp_all add: hexval_hexdigit)
  moreover have "hexval 48 = Some 0" by (simp add: hexval_def)
  ultimately show ?thesis by (simp add: decode_uXXXX_def)
qed

lemma scanstring_escape_char:
  "scanstring (escape_char c @ t) = chunk c (scanstring t)"
proof -
  consider "c = 34" | "c = 92" | "c = 8" | "c = 12" | "c = 10" | "c = 13" | "c = 9"
    | "c < 32" "c \<notin> {8, 9, 10, 12, 13}" | "32 \<le> c" "c \<noteq> 34" "c \<noteq> 92"
    by force
  then show ?thesis
  proof cases
    case 8
    then have e: "escape_char c = [92, 117, 48, 48, hexdigit (c div 16), hexdigit (c mod 16)]"
      by (auto simp: escape_char_def)
    from 8 show ?thesis
      unfolding e by (simp add: decode_control)
  next
    case 9
    then show ?thesis by (auto simp: escape_char_def)
  qed (simp_all add: escape_char_def BACKSLASH_def)
qed

lemma scanstring_escaped:
  "scanstring (concat (map escape_char s) @ 34 # t) = Inr (s, t)"
  by (induction s) (simp_all add: scanstring_escape_char chunk_def)

lemma scan_once_string:
  "scan_once (Suc n) (encode_basestring s @ t) = Inr (JStr s, t)"
  by (simp add: encode_basestring_def scanstring_escaped)

lemma skip_ws_indent:
  "\<not> is_ws c \<Longrightarrow> skip_ws (indent l @ c # t) = c # t"
  by (simp add: skip_ws_def indent_def is_ws_def dropWhile_append3)

lemma skip_ws_indent_Nil [simp]:
  "skip_ws (indent l) = []"
  by (simp add: skip_ws_def indent_def is_ws_def)

lemma skip_ws_not_ws:
  "\<not> is_ws c \<Longrightarrow> skip_ws (c # t) = c # t"
  by (simp add: skip_ws_def)

lemma scan_once_string':
  "scan_once (Suc n) (34 # concat (map escape_char s) @ 34 # t) = Inr (JStr s, t)"
  by (simp add: scanstring_escaped)

lemma scan_once_brace:
  "scan_once (Suc n) (123 # indent l @ 34 # t) = JSONObject n [] t"
proof -
  have "skip_ws (indent l @ 34 # t) = 34 # t"
    by (rule skip_ws_indent) (simp add: is_ws_def)
  then show ?thesis by simp
qed

text \<open>A member with a string value, followed by a comma and the next key.\<close>

lemma JSONObject_member_next:
  "JSONObject (Suc (Suc n)) pairs
     (concat (map escape_char k) @ 34 # 58 # 32 # 34 # concat (map escape_char v) @ 34 # 44
        # indent l @ 34 # t)
   = JSONObject (Suc n) (pairs @ [(k, JStr v)]) t"
proof -
  let ?v = "34 # concat (map escape_char v) @ 34 # 44 # indent l @ 34 # t"
  have a: "skip_ws (32 # ?v) = ?v"
    by (simp add: skip_ws_def is_ws_def)
  have b: "skip_ws (indent l @ 34 # t) = 34 # t"
    by (rule skip_ws_indent) (simp add: is_ws_def)
  have c: "skip_ws (44 # indent l @ 34 # t) = 44 # indent l @ 34 # t"
    by (rule skip_ws_not_ws) (simp add: is_ws_def)
  have d: "skip_ws (58 # 32 # ?v) = 58 # 32 # ?v"
    by (rule skip_ws_not_ws) (simp add: is_ws_def)
  show ?thesis
    by (simp add: a b c d scanstring_escaped scan_once_string' del: scan_once.simps)
qed

text \<open>The last member, followed by the closing brace; its value is any value.\<close>

lemma JSONObject_member_last:
  assumes "scan_once n (x # u) = Inr (v, indent l @ 125 # t)" and "\<not> is_ws x"
  shows "JSONObject (Suc n) pairs (concat (map escape_char k) @ 34 # 58 # 32 # x # u)
           = Inr (JObj (dict (pairs @ [(k, v)])), t)"
proof -
  have a: "skip_ws (32 # x # u) = x # u"
    using assms(2) by (simp add: skip_ws_def is_ws_def)
  have b: "skip_ws (indent l @ 125 # t) = 125 # t"
    by (rule skip_ws_indent) (simp add: is_ws_def)
  have d: "skip_ws (58 # 32 # x # u) = 58 # 32 # x # u"
    by (rule skip_ws_not_ws) (simp add: is_ws_def)
  show ?thesis
    by (simp add: a b d assms(1) scanstring_escaped del: scan_once.simps)
qed

lemma dict_distinct4:
  "distinct [k1, k2, k3, k4] \<Longrightarrow>
     dict [(k1, v1), (k2, v2), (k3, v3), (k4, v4)] = [(k1, v1), (k2, v2), (k3, v3), (k4, v4)]"
  by (simp add: dict_def)

lemma scan_once_object4:
  assumes "distinct [k1, k2, k3, k4]"
  shows "scan_once (Suc (Suc (Suc (Suc (Suc (Suc n))))))
           (json_dumps_at l (JObj [(k1, JStr v1), (k2, JStr v2), (k3, JStr v3), (k4, JStr v4)]) @ t)
         = Inr (JObj [(k1, JStr v1), (k2, JStr v2), (k3, JStr v3), (k4, JStr v4)], t)"
proof -
  have last: "JSONObject (Suc (Suc n)) pairs
                (concat (map escape_char k4) @ 34 # 58 # 32 # 34 # concat (map escape_char v4)
                   @ 34 # indent l @ 125 # t)
              = Inr (JObj (dict (pairs @ [(k4, JStr v4)])), t)" for pairs
    by (rule JSONObject_member_last) (simp_all add: scan_once_string' is_ws_def del: scan_once.simps)
  show ?thesis
    by (simp add: encode_basestring_def scan_once_brace JSONObject_member_next last
          dict_distinct4 [OF assms]
          del: scan_once.simps JSONObject.simps)
qed

lemma json_loads_dumps_record:
  assumes "distinct [k1, k2, k3, k4]"
  shows "json_loads (json_dumps
           (JObj [(k, JObj [(k1, JStr v1), (k2, JStr v2), (k3, JStr v3), (k4, JStr v4)])]))
         = Inr (JObj [(k, JObj [(k1, JStr v1), (k2, JStr v2), (k3, JStr v3), (k4, JStr v4)])])"
proof -
  define inner where "inner = JObj [(k1, JStr v1), (k2, JStr v2), (k3, JStr v3), (k4, JStr v4)]"
  define D where "D = json_dumps_at (Suc 0) inner"
  obtain u where u: "D = 123 # u"
    by (simp add: D_def inner_def)
  define R where "R = concat (map escape_char k) @ 34 # 58 # 32 # 123 # u @ indent 0 @ [125]"
  have tx: "json_dumps (JObj [(k, inner)]) = 123 # indent 1 @ 34 # R"
    by (simp add: json_dumps_def encode_basestring_def R_def D_def [symmetric] u)
  have "8 \<le> length (123 # indent 1 @ 34 # R)"
    by (simp add: R_def indent_def)
  then obtain m where "length (123 # indent 1 @ 34 # R) = 8 + m"
    using le_Suc_ex by blast
  then have m: "Suc (length (123 # indent 1 @ 34 # R))
                  = Suc (Suc (Suc (Suc (Suc (Suc (Suc (Suc (Suc m))))))))"
    by simp
  have ws: "skip_ws (123 # indent 1 @ 34 # R) = 123 # indent 1 @ 34 # R"
    by (rule skip_ws_not_ws) (simp add: is_ws_def)
  have v: "scan_once (Suc (Suc (Suc (Suc (Suc (Suc (Suc m))))))) (123 # u @ indent 0 @ 125 # [])
             = Inr (inner, indent 0 @ 125 # [])"
    using scan_once_object4 [OF assms, of "Suc m" "Suc 0" v1 v2 v3 v4 "indent 0 @ 125 # []"]
    unfolding inner_def [symmetric] D_def [symmetric] u by simp
  have o: "JSONObject (Suc (Suc (Suc (Suc (Suc (Suc (Suc (Suc m)))))))) [] R
             = Inr (JObj (dict ([] @ [(k, inner)])), [])"
    unfolding R_def
    by (rule JSONObject_member_last [where l = 0]) (simp_all add: v is_ws_def del: scan_once.simps)
  have s: "scan_once (Suc (length (123 # indent 1 @ 34 # R))) (123 # indent 1 @ 34 # R)
          = Inr (JObj [(k, inner)], [])"
    unfolding m by (simp only: scan_once_brace o) (simp add: dict_def)
  have "json_loads (json_dumps (JObj [(k, inner)])) = Inr (JObj [(k, inner)])"
    unfolding json_loads_def tx ws s by (simp add: skip_ws_def)
  then show ?thesis
    unfolding inner_def .
qed

lemma from_json_lotus:
  "from_json lotus_json (str ''[Emoji] Activity.alfredsnippets'') = Inr lotus"
  by code_simp

lemma from_json_collection:
  "from_json body c = Inr r \<Longrightarrow> collection r = c"
  by (auto simp: from_json_def split: sum.splits json.splits)

lemma from_json_to_json:
  "from_json (to_json r) c = Inr (r\<lparr>collection := c\<rparr>)"
proof -
  have "json_loads (to_json r) =
          Inr (JObj [(str ''alfredsnippet'',
                      JObj [(str ''snippet'', JStr (snippet r)), (str ''uid'', JStr (uid r)),
                            (str ''name'', JStr (name r)), (str ''keyword'', JStr (keyword r))])])"
    unfolding to_json_def by (rule json_loads_dumps_record) simp
  then show ?thesis
    by (simp add: from_json_def getitem_def)
qed


section \<open>Facts about the contents of the archive\<close>

lemma update_fresh:
  "k \<notin> fst ` set al \<Longrightarrow> AList.update k v al = al @ [(k, v)]"
  by (induction al) auto

lemma update_last:
  "k \<notin> fst ` set al \<Longrightarrow> AList.update k v (al @ [(k, w)]) = al @ [(k, v)]"
  by (induction al) auto

lemma map_of_last:
  "k \<notin> fst ` set al \<Longrightarrow> map_of (al @ [(k, w)]) k = Some w"
  by (induction al) auto

lemma is_json_not_icon: "is_json (n, t) \<Longrightarrow> n \<noteq> str ''icon.png''"
  by (auto simp: is_json_def endswith_def)

lemma is_json_not_plist: "is_json (n, t) \<Longrightarrow> n \<noteq> str ''info.plist''"
  by (auto simp: is_json_def endswith_def)

lemma not_json_icon: "\<not> is_json (str ''icon.png'', t)"
  by (simp add: is_json_def endswith_def)

lemma not_json_plist: "\<not> is_json (str ''info.plist'', t)"
  by (simp add: is_json_def endswith_def)

lemma record_entries_cong:
  "(\<And>d. d \<in> set cs \<Longrightarrow> files_in st' d = files_in st d) \<Longrightarrow>
     concat (map (\<lambda>c. filter is_json (files_in st' c)) cs)
       = concat (map (\<lambda>c. filter is_json (files_in st c)) cs)"
  by (induction cs) simp_all

lemma map_of_remove1:
  "fst f \<noteq> k \<Longrightarrow> map_of (remove1 f al) k = map_of al k"
  by (induction al) auto

lemma rename_into_final_source:
  "c \<noteq> FINAL_COLLECTION_NAME \<Longrightarrow>
     files_in (rename_into_final c f st) c = remove1 f (files_in st c)"
  by (simp add: rename_into_final_def Let_def)

lemma move_snippets_plist:
  "c \<noteq> FINAL_COLLECTION_NAME \<Longrightarrow> \<forall>f \<in> set fl. is_json f \<Longrightarrow>
   move_snippets c fl st = Inr st' \<Longrightarrow> d \<noteq> FINAL_COLLECTION_NAME \<Longrightarrow>
     map_of (files_in st' d) (str ''info.plist'') = map_of (files_in st d) (str ''info.plist'')"
proof (induction fl arbitrary: st)
  case Nil
  then show ?case by simp
next
  case (Cons f fl)
  from Cons.prems have r: "move_snippets c fl (rename_into_final c f st) = Inr st'"
    by (simp split: if_splits)
  from Cons.prems(2) have "fst f \<noteq> str ''info.plist''"
    using is_json_not_plist [of "fst f" "snd f"] by auto
  then have "map_of (files_in (rename_into_final c f st) d) (str ''info.plist'')
               = map_of (files_in st d) (str ''info.plist'')"
    using Cons.prems(1,4)
    by (cases "d = c") (simp_all add: rename_into_final_source rename_into_final_simps map_of_remove1)
  with Cons.IH [OF Cons.prems(1) _ r Cons.prems(4)] Cons.prems(2) show ?case
    by simp
qed

lemma move_collections_entries:
  "distinct cs \<Longrightarrow> FINAL_COLLECTION_NAME \<notin> set cs \<Longrightarrow> move_collections cs st = Inr st' \<Longrightarrow>
     files_in st' FINAL_COLLECTION_NAME
       = files_in st FINAL_COLLECTION_NAME @ concat (map (\<lambda>c. filter is_json (files_in st c)) cs)
     \<and> (\<forall>d. d \<noteq> FINAL_COLLECTION_NAME \<longrightarrow>
            map_of (files_in st' d) (str ''info.plist'') = map_of (files_in st d) (str ''info.plist''))
     \<and> icon st' = icon st"
proof (induction cs arbitrary: st)
  case Nil
  then show ?case by simp
next
  case (Cons c cs)
  from Cons.prems obtain st1
    where s1: "move_snippets c (filter is_json (files_in st c)) st = Inr st1"
      and s2: "move_collections cs st1 = Inr st'"
    by (auto split: sum.splits)
  from Cons.prems have c: "c \<noteq> FINAL_COLLECTION_NAME" "c \<notin> set cs" "distinct cs"
    "FINAL_COLLECTION_NAME \<notin> set cs"
    by auto
  note a = move_snippets_Inr_all [OF c(1) s1]
  note b = Cons.IH [OF c(3,4) s2]
  have same: "concat (map (\<lambda>c. filter is_json (files_in st1 c)) cs)
                = concat (map (\<lambda>c. filter is_json (files_in st c)) cs)"
    using a c by (intro record_entries_cong) auto
  have p: "map_of (files_in st1 d) (str ''info.plist'') = map_of (files_in st d) (str ''info.plist'')"
    if "d \<noteq> FINAL_COLLECTION_NAME" for d
    using move_snippets_plist [OF c(1) _ s1 that] by simp
  from a b p show ?case
    unfolding same by auto
qed

lemma pack_final_contents:
  assumes "pack_final (c0 # cs) st1 = Inr st'"
    and "c0 \<noteq> FINAL_COLLECTION_NAME"
    and "\<forall>x \<in> set (files_in st1 FINAL_COLLECTION_NAME). is_json x"
  shows "\<exists>img m. final_zip st' = Some (files_in st1 FINAL_COLLECTION_NAME
                                          @ [(str ''icon.png'', img), (str ''info.plist'', m)])"
proof -
  let ?F = "FINAL_COLLECTION_NAME"
  from assms(1) obtain st2 st3 st4 where
    a: "copy_icon st1 = Inr st2" and b: "move_manifest (c0 # cs) st2 = Inr st3"
    and c: "tweak_info_plist ?F (str ''info.plist'') COMMON_PREFIX COMMON_SUFFIX st3 = Inr st4"
    and d: "st' = write_zip st4"
    by (auto simp: pack_final_def split: sum.splits)
  from a obtain img where f2: "files_in st2 ?F = AList.update (str ''icon.png'') img (files_in st1 ?F)"
    by (auto simp: copy_icon_def split: option.splits)
  have k1: "str ''icon.png'' \<notin> fst ` set (files_in st1 ?F)"
    using assms(3) is_json_not_icon by fastforce
  let ?al = "files_in st1 ?F @ [(str ''icon.png'', img)]"
  have k2: "str ''info.plist'' \<notin> fst ` set ?al"
    using assms(3) is_json_not_plist by fastforce
  from b assms(2) obtain manifest where
    "files_in st3 ?F = AList.update (str ''info.plist'') manifest (files_in st2 ?F)"
    by (auto simp: move_manifest_def Let_def split: option.splits)
  then have f3: "files_in st3 ?F = ?al @ [(str ''info.plist'', manifest)]"
    by (simp only: f2 update_fresh [OF k1] update_fresh [OF k2])
  have ml: "map_of (files_in st3 ?F) (str ''info.plist'') = Some manifest"
    by (simp only: f3 map_of_last [OF k2])
  from c have "st4 = put_dir ?F
                 (AList.update (str ''info.plist'')
                    (plist_sub 0 True COMMON_PREFIX COMMON_SUFFIX manifest) (files_in st3 ?F)) st3"
    unfolding tweak_info_plist_def ml by simp
  then have "files_in st4 ?F
      = AList.update (str ''info.plist'') (plist_sub 0 True COMMON_PREFIX COMMON_SUFFIX manifest)
          (?al @ [(str ''info.plist'', manifest)])"
    by (simp only: files_in_put_dir f3 simp_thms if_True)
  then have "files_in st4 ?F
      = ?al @ [(str ''info.plist'', plist_sub 0 True COMMON_PREFIX COMMON_SUFFIX manifest)]"
    by (simp only: update_last [OF k2])
  with d show ?thesis
    by (simp add: write_zip_def)
qed

lemma archive_contents:
  assumes "distinct (map fst (workspace st))"
    and "collect_and_compress_to_new_single_snippetfile st = Inr st'"
  shows "\<exists>img m. final_zip st' = Some (record_entries st @ [(str ''icon.png'', img),
                                                            (str ''info.plist'', m)])"
proof -
  let ?cs = "map fst (workspace st)"
  let ?F = "FINAL_COLLECTION_NAME"
  let ?st0 = "st\<lparr>workspace := workspace st @ [(?F, [])]\<rparr>"
  from assms(2) have nf: "?F \<notin> set ?cs"
    by (auto simp: collect_and_compress_to_new_single_snippetfile_def Let_def split: if_splits)
  with assms(2) obtain st1 where mv: "move_collections ?cs ?st0 = Inr st1"
    and pk: "pack_final ?cs st1 = Inr st'"
    by (auto simp: collect_and_compress_to_new_single_snippetfile_def Let_def split: sum.splits)
  from pk obtain c0 cs' where cs: "?cs = c0 # cs'"
    by (cases ?cs) (auto simp: pack_final_def copy_icon_def move_manifest_def split: option.splits)
  have c0: "c0 \<noteq> ?F"
    using nf cs by auto
  have same: "\<And>d. d \<in> set ?cs \<Longrightarrow> files_in ?st0 d = files_in st d"
    by (rule files_in_mkdir)
  have e: "files_in st1 ?F = record_entries st"
    using move_collections_entries [OF assms(1) nf mv] files_in_mkdir_new [OF nf]
      record_entries_cong [of ?cs ?st0 st, OF same]
    by (simp add: record_entries_def)
  have j: "\<forall>x \<in> set (files_in st1 ?F). is_json x"
    unfolding e by (auto simp: record_entries_def)
  from pack_final_contents [OF pk [unfolded cs] c0 j] e show ?thesis
    by simp
qed

lemma tweak_snippet_remove:
  "SNIPPET_ACTIONS (collection r, uid r) = Some (str ''remove'') \<Longrightarrow>
     tweak_snippet r g = Inr (None, g)"
  by (simp add: tweak_snippet_def apply_action_def)

lemma keys_put_dir:
  "d \<in> fst ` set (workspace st) \<Longrightarrow> map fst (workspace (put_dir d fl st)) = map fst (workspace st)"
  by (simp add: put_dir_def update_keys)

lemma files_in_present:
  "map_of (files_in st d) fname = Some body \<Longrightarrow> d \<in> fst ` set (workspace st)"
  by (force simp: files_in_def split: option.splits dest: map_of_SomeD)

lemma filter_json_record_entries:
  "filter is_json (record_entries st) = record_entries st"
proof -
  have "filter is_json (concat (map (\<lambda>c. filter is_json (files_in st c)) cs))
          = concat (map (\<lambda>c. filter is_json (files_in st c)) cs)" for cs
    by (induction cs) simp_all
  then show ?thesis
    by (simp add: record_entries_def)
qed

lemma record_entries_names:
  "n \<in> fst ` set (record_entries st) \<Longrightarrow>
     \<exists>c \<in> fst ` set (workspace st). n \<in> fst ` set (files_in st c)"
  by (auto simp: record_entries_def)


lemma removed_record_archive:
  "map_sum fst (map_option (map fst) \<circ> final_zip)
     (collect_and_compress_to_new_single_snippetfile
        (put_dir (str ''[Emoji] Activity.alfredsnippets'')
           (AList.delete (str ''lotus.json'')
              (files_in activity (str ''[Emoji] Activity.alfredsnippets''))) activity))
   = Inr (Some [str ''icon.png'', str ''info.plist''])"
  by (simp add: collect_and_compress_to_new_single_snippetfile_def pack_final_def copy_icon_def
        move_manifest_def write_zip_def activity_def FINAL_COLLECTION_NAME_def files_in_def
        put_dir_def is_json_def endswith_def tweak_info_plist_def Let_def)

section \<open>Facts about the statements of the transformer\<close>

lemma steps_end_in_result:
  "tweak_snippet r g = Inr (Some r', g') \<Longrightarrow> snd (last (tweak_snippet_steps r)) = r'"
  by (auto simp: tweak_snippet_def apply_action_def tweak_snippet_steps_def
        register_and_prefix_def Let_def split: option.splits if_splits list.splits)

lemma steps_of_removed:
  "tweak_snippet r g = Inr (None, g') \<Longrightarrow> length (tweak_snippet_steps r) = 2"
  by (auto simp: tweak_snippet_def apply_action_def tweak_snippet_steps_def
        register_and_prefix_def Let_def split: option.splits if_splits list.splits)


section \<open>Properties of the transformer\<close>

text \<open>
  C2. For a record whose entry in the rule table is a rename to keyword \<open>k\<close> and name
  \<open>n\<close> (the entry is \<open>rename:\<close> followed by a text that splits at \<open>:\<close> into \<open>k\<close> and
  \<open>n\<close>), the transformed record has keyword \<open>k\<close> and name
  \<open>Emoji | label | n | k\<close>, where \<open>label\<close> is the collection name without the marker
  \<open>[Emoji] \<close> and the extension \<open>.alfredsnippets\<close>.
\<close>

theorem rename_rule_final_keyword_and_name:
  assumes "SNIPPET_ACTIONS (collection r, uid r) = Some action"
    and "action \<noteq> str ''remove''"
    and "startswith action (str ''rename:'')"
    and "str_split COLON (drop 7 action) = [k, n]"
  shows "\<exists>r' g'. tweak_snippet r g = Inr (Some r', g')
           \<and> keyword r' = k
           \<and> name r' = str ''Emoji | '' @ collection_label (collection r) @ str '' | ''
                          @ n @ str '' | '' @ k"
  using assms
  by (simp add: tweak_snippet_def apply_action_def register_and_prefix_def Let_def)

theorem rename_rule_final_keyword_and_name_witness:
  "\<exists>r' g'. tweak_snippet space_invader no_globals = Inr (Some r', g')
     \<and> keyword r' = str ''space-invader''
     \<and> name r' = str ''Emoji | Aliases | Space Invader | space-invader''"
proof -
  have a: "str ''rename:space-invader:Space Invader'' \<noteq> str ''remove''"
    by simp
  have b: "startswith (str ''rename:space-invader:Space Invader'') (str ''rename:'')"
    by (simp add: startswith_def)
  have c: "collection space_invader = str ''[Emoji] Aliases.alfredsnippets''"
    by (simp add: space_invader_def)
  note t = rename_rule_final_keyword_and_name
             [OF space_invader_action a b space_invader_split, of no_globals]
  show ?thesis
    using t unfolding c aliases_label by simp
qed




text \<open>
  C4, as stated: for a record with no entry in the rule table, the final keyword is the
  input keyword with one leading and one trailing delimiter stripped when both are
  present. The keyword \<open>::\<close> has both and is left as it is: the pattern \<open>^:(.+):$\<close>
  asks for at least one code point between the delimiters.
\<close>

theorem no_rule_keyword_counterexample:
  "map_sum id (map_option keyword \<circ> fst) (tweak_snippet (plain ''Colons'' ''::'') no_globals)
     = Inr (Some (str ''::''))
   \<and> spec_strip_keyword (keyword (plain ''Colons'' ''::'')) = []"
  by (simp add: tweak_snippet_plain re_sub_keyword_def spec_strip_keyword_def plain_sel Let_def)

text \<open>
  C4, amended: for a record with no entry in the rule table whose keyword has no line
  feed, the record is kept and its final keyword is the input keyword with one leading
  and one trailing delimiter stripped when both are present, except that the keyword
  \<open>::\<close> stays \<open>::\<close>; a keyword with a delimiter at one end only is left untouched.
\<close>

theorem no_rule_keyword:
  assumes "SNIPPET_ACTIONS (collection r, uid r) = None"
    and "NL \<notin> set (keyword r)"
  shows "\<exists>r' g'. tweak_snippet r g = Inr (Some r', g')
           \<and> keyword r' = (if keyword r = str ''::'' then str ''::''
                            else spec_strip_keyword (keyword r))"
  using assms re_sub_keyword_single_line [OF assms(2)]
  by (simp add: tweak_snippet_def apply_action_def register_and_prefix_def Let_def)

theorem no_rule_keyword_witness:
  "SNIPPET_ACTIONS (collection (plain ''Coffee'' '':coffee:''), uid (plain ''Coffee'' '':coffee:''))
     = None
   \<and> NL \<notin> set (keyword (plain ''Coffee'' '':coffee:''))
   \<and> (\<exists>r' g'. tweak_snippet (plain ''Coffee'' '':coffee:'') no_globals = Inr (Some r', g')
          \<and> keyword r' = str ''coffee'')"
proof -
  have a: "SNIPPET_ACTIONS (collection (plain ''Coffee'' '':coffee:''),
                            uid (plain ''Coffee'' '':coffee:'')) = None"
    by (simp add: plain_def plain_no_action)
  have b: "NL \<notin> set (keyword (plain ''Coffee'' '':coffee:''))"
    by (simp add: plain_def)
  have c: "keyword (plain ''Coffee'' '':coffee:'') = str '':coffee:''"
    by (simp add: plain_def)
  have d: "spec_strip_keyword (str '':coffee:'') = str ''coffee''"
    by (simp add: spec_strip_keyword_def)
  note t = no_rule_keyword [OF a b, of no_globals]
  show ?thesis
    using t a b unfolding c d by simp
qed

text \<open>
  C7, as stated: two records whose final display names are equal have equal
  (collection, original name, final keyword) triples. The separator \<open> | \<close> may also occur
  inside a name or a keyword, so two different triples can give one display name.
\<close>

theorem display_name_injective_counterexample:
  "map_sum id (map_option name \<circ> fst) (tweak_snippet (plain ''a | b'' ''c'') no_globals)
     = Inr (Some (str ''Emoji | X | a | b | c''))
   \<and> map_sum id (map_option name \<circ> fst) (tweak_snippet (plain ''a'' ''b | c'') no_globals)
     = Inr (Some (str ''Emoji | X | a | b | c''))
   \<and> map_sum id (map_option keyword \<circ> fst) (tweak_snippet (plain ''a | b'' ''c'') no_globals)
     = Inr (Some (str ''c''))
   \<and> map_sum id (map_option keyword \<circ> fst) (tweak_snippet (plain ''a'' ''b | c'') no_globals)
     = Inr (Some (str ''b | c''))
   \<and> name (plain ''a | b'' ''c'') \<noteq> name (plain ''a'' ''b | c'')"
  by (simp add: tweak_snippet_plain re_sub_keyword_def plain_sel Let_def)

text \<open>
  C7, amended: when the labels of the two collections and the two names that the rule
  step leaves (the original name, or the new name of a rename) contain no \<open>|\<close>, equal
  final display names force equal labels, equal names and equal final keywords.
\<close>

theorem display_name_injective:
  assumes "apply_action r1 = Inr (Some s1)" and "apply_action r2 = Inr (Some s2)"
    and "tweak_snippet r1 g1 = Inr (Some r1', g1')"
    and "tweak_snippet r2 g2 = Inr (Some r2', g2')"
    and "name r1' = name r2'"
    and "124 \<notin> set (collection_label (collection r1))"
    and "124 \<notin> set (collection_label (collection r2))"
    and "124 \<notin> set (name s1)" and "124 \<notin> set (name s2)"
  shows "collection_label (collection r1) = collection_label (collection r2)
         \<and> name s1 = name s2 \<and> keyword r1' = keyword r2'"
proof -
  let ?L1 = "collection_label (collection r1)" and ?L2 = "collection_label (collection r2)"
  have k: "keyword r1' = keyword s1" "keyword r2' = keyword s2"
    using tweak_snippet_kept(1) assms(1-4) by blast+
  have "str ''Emoji | '' @ ?L1 @ str '' | '' @ name s1 @ str '' | '' @ keyword s1
        = str ''Emoji | '' @ ?L2 @ str '' | '' @ name s2 @ str '' | '' @ keyword s2"
    using tweak_snippet_kept(2) [OF assms(1,3)] tweak_snippet_kept(2) [OF assms(2,4)] assms(5)
    by simp
  then have e: "(?L1 @ [32]) @ 124 # (32 # name s1 @ 32 # 124 # 32 # keyword s1)
              = (?L2 @ [32]) @ 124 # (32 # name s2 @ 32 # 124 # 32 # keyword s2)"
    by simp
  have "124 \<notin> set (?L1 @ [32])" "124 \<notin> set (?L2 @ [32])"
    using assms(6,7) by simp_all
  from first_separator_unique [OF this e]
  have l: "?L1 = ?L2"
    and e': "(name s1 @ [32]) @ 124 # (32 # keyword s1)
           = (name s2 @ [32]) @ 124 # (32 # keyword s2)"
    by simp_all
  have "124 \<notin> set (name s1 @ [32])" "124 \<notin> set (name s2 @ [32])"
    using assms(8,9) by simp_all
  from first_separator_unique [OF this e']
  have "name s1 = name s2 \<and> keyword s1 = keyword s2"
    by simp
  with l k show ?thesis by simp
qed

theorem display_name_injective_witness:
  "plain ''Coffee'' '':coffee:'' \<noteq> plain ''Coffee'' ''coffee''
   \<and> map_sum id (map_option name \<circ> fst) (tweak_snippet (plain ''Coffee'' '':coffee:'') no_globals)
       = Inr (Some (str ''Emoji | X | Coffee | coffee''))
   \<and> map_sum id (map_option name \<circ> fst) (tweak_snippet (plain ''Coffee'' ''coffee'') no_globals)
       = Inr (Some (str ''Emoji | X | Coffee | coffee''))
   \<and> collection_label (collection (plain ''Coffee'' '':coffee:''))
       = collection_label (collection (plain ''Coffee'' ''coffee''))
   \<and> map_sum id (map_option keyword \<circ> fst) (tweak_snippet (plain ''Coffee'' '':coffee:'') no_globals)
       = map_sum id (map_option keyword \<circ> fst) (tweak_snippet (plain ''Coffee'' ''coffee'') no_globals)"
proof -
  let ?A = "plain ''Coffee'' '':coffee:''" and ?B = "plain ''Coffee'' ''coffee''"
  obtain a' ga where ta: "tweak_snippet ?A no_globals = Inr (Some a', ga)"
    and na: "name a' = str ''Emoji | X | Coffee | coffee''"
    by (simp add: tweak_snippet_plain Let_def re_sub_keyword_def)
  obtain b' gb where tb: "tweak_snippet ?B no_globals = Inr (Some b', gb)"
    and nb: "name b' = str ''Emoji | X | Coffee | coffee''"
    by (simp add: tweak_snippet_plain Let_def re_sub_keyword_def)
  have e: "name a' = name b'"
    using na nb by simp
  have l: "124 \<notin> set (collection_label (collection ?A))"
          "124 \<notin> set (collection_label (collection ?B))"
    by (simp_all add: plain_sel X_label)
  have n: "124 \<notin> set (name (?A\<lparr>keyword := re_sub_keyword (str '':coffee:'')\<rparr>))"
          "124 \<notin> set (name (?B\<lparr>keyword := re_sub_keyword (str ''coffee'')\<rparr>))"
    by (simp_all add: plain_sel)
  note t = display_name_injective [OF apply_action_plain apply_action_plain ta tb e l n]
  have d: "?A \<noteq> ?B"
    by (simp add: plain_def)
  show ?thesis
    using t d ta tb na nb by simp
qed

section \<open>Properties of the aggregator\<close>

text \<open>
  C1. The working directories have distinct names and none of them is the merged
  directory, so that the merged directory is made. If the names of the record files
  that the aggregator visits are not all distinct, so that the destination of one of them
  exists already when its turn comes, the run stops with the \<open>ValueError\<close> that carries
  the path of that file, its name is the name of a file in the merged directory, and
  the final archive is as it was before: it has not been written.
\<close>

theorem collision_aborts:
  assumes "distinct (map fst (workspace st))"
    and "FINAL_COLLECTION_NAME \<notin> set (map fst (workspace st))"
    and "\<not> distinct (record_files st)"
  shows "\<exists>c n st'. collect_and_compress_to_new_single_snippetfile st
                      = Inl (ValueError_path (c, n), st')
           \<and> c \<in> set (map fst (workspace st))
           \<and> n \<in> set (map fst (filter is_json (files_in st c)))
           \<and> n \<in> set (map fst (files_in st' FINAL_COLLECTION_NAME))
           \<and> final_zip st' = final_zip st"
proof -
  let ?cs = "map fst (workspace st)"
  let ?st1 = "st\<lparr>workspace := workspace st @ [(FINAL_COLLECTION_NAME, [])]\<rparr>"
  have same: "\<And>d. d \<in> set ?cs \<Longrightarrow> files_in ?st1 d = files_in st d"
    by (rule files_in_mkdir)
  then have names: "record_file_names ?st1 ?cs = record_files st"
    unfolding record_files_def by (rule record_file_names_cong)
  show ?thesis
  proof (cases "move_collections ?cs ?st1")
    case (Inr st')
    from move_collections_Inr [OF assms(1,2) Inr] names assms(3) show ?thesis
      by simp
  next
    case (Inl x)
    obtain e st' where x: "x = (e, st')"
      by (cases x)
    from move_collections_Inl [OF assms(1,2) Inl [unfolded x]]
    obtain c n where "c \<in> set ?cs" "n \<in> set (map fst (filter is_json (files_in ?st1 c)))"
      "e = ValueError_path (c, n)" "n \<in> set (map fst (files_in st' FINAL_COLLECTION_NAME))"
      "final_zip st' = final_zip ?st1"
      by blast
    with same [of c] Inl x assms(2) show ?thesis
      by (intro exI [of _ c] exI [of _ n] exI [of _ st'])
         (simp add: collect_and_compress_to_new_single_snippetfile_def Let_def)
  qed
qed

theorem collision_aborts_witness:
  "distinct (map fst (workspace colliding))
   \<and> FINAL_COLLECTION_NAME \<notin> set (map fst (workspace colliding))
   \<and> \<not> distinct (record_files colliding)
   \<and> (\<exists>c n st'. collect_and_compress_to_new_single_snippetfile colliding
                      = Inl (ValueError_path (c, n), st')
           \<and> final_zip st' = final_zip colliding)"
proof -
  have a: "distinct (map fst (workspace colliding))"
    by (simp add: colliding_def)
  have b: "FINAL_COLLECTION_NAME \<notin> set (map fst (workspace colliding))"
    by (simp add: colliding_def FINAL_COLLECTION_NAME_def)
  have c: "\<not> distinct (record_files colliding)"
    by (simp add: colliding_def record_files_def record_file_names_def files_in_def
          is_json_def endswith_def)
  from collision_aborts [OF a b c] a b c show ?thesis
    by blast
qed

text \<open>
  C10, as stated: with no working directory the aggregation fails with an index error.
  The icon is copied before the first collection is selected, so without an icon file
  the run fails there, with \<open>FileNotFoundError\<close>.
\<close>

theorem no_collections_counterexample:
  "collect_and_compress_to_new_single_snippetfile \<lparr>workspace = [], icon = None, final_zip = None\<rparr>
     = Inl (FileNotFoundError [ICON_PATH],
            \<lparr>workspace = [(FINAL_COLLECTION_NAME, [])], icon = None, final_zip = None\<rparr>)"
  by (simp add: collect_and_compress_to_new_single_snippetfile_def pack_final_def copy_icon_def
        move_manifest_def write_zip_def)

text \<open>
  C10, amended: with no working directory the aggregation fails and writes no final
  archive; the exception is the \<open>IndexError\<close> of \<open>collections[0]\<close> when the icon file
  exists, and the \<open>FileNotFoundError\<close> of the icon copy when it does not.
\<close>

theorem no_collections_fails:
  assumes "workspace st = []"
  shows "\<exists>st'. collect_and_compress_to_new_single_snippetfile st
                  = Inl (if icon st = None then FileNotFoundError [ICON_PATH] else IndexError, st')
           \<and> final_zip st' = final_zip st"
  using assms
  by (auto simp: collect_and_compress_to_new_single_snippetfile_def pack_final_def copy_icon_def
        move_manifest_def write_zip_def Let_def
        split: option.splits)

theorem no_collections_fails_witness:
  "\<exists>st'. collect_and_compress_to_new_single_snippetfile
            \<lparr>workspace = [], icon = Some (str ''PNG''), final_zip = None\<rparr> = Inl (IndexError, st')
         \<and> final_zip st' = None"
  using no_collections_fails [of "\<lparr>workspace = [], icon = Some (str ''PNG''), final_zip = None\<rparr>"]
  by simp




section \<open>Properties of the record model\<close>



section \<open>Properties of the collection processor\<close>



section \<open>The order of the statements of the transformer\<close>




end
